theory Spec2Isabelle
  imports Main "HOL-Library.AList"
begin

section \<open>JavaScript values\<close>

text \<open>
  The component of \<^verbatim>\<open>src/src/components/ArtworksTable.tsx\<close> receives its records from
  \<^verbatim>\<open>res.json()\<close> with the static type \<^verbatim>\<open>any\<close>, and casts what it builds from them to
  \<^verbatim>\<open>Artwork[]\<close> without a check. The fields of a record are therefore whatever JSON
  carried. \<open>json\<close> is what \<^verbatim>\<open>JSON.parse\<close> can produce; an object is the list of its
  properties, read with \<open>map_of\<close>. Numbers are modelled as integers (identifiers,
  years and counts of the catalogue are integers; JSON has no NaN). \<open>jsval\<close> adds
  \<^verbatim>\<open>undefined\<close>, the value of an absent property.

  On the primitive values \<^verbatim>\<open>===\<close> and the key comparison of \<^verbatim>\<open>Map\<close> are the equality of
  \<open>jsval\<close>; identifiers are numbers (\<^verbatim>\<open>id: number\<close> in the type \<^verbatim>\<open>Artwork\<close>).
\<close>

datatype json =
    JNull
  | JBool bool
  | JNum int
  | JStr string
  | JArr "json list"
  | JObj "(string \<times> json) list"

datatype jsval = Undefined | Val json

datatype error =
    NetworkError    \<comment> \<open>\<^verbatim>\<open>fetch\<close> rejected\<close>
  | SyntaxError     \<comment> \<open>\<^verbatim>\<open>res.json()\<close> rejected: the body is not JSON\<close>
  | TypeError       \<comment> \<open>property read on null or undefined, or call of a non-function\<close>

text \<open>Sequencing of steps that may throw: the first error ends the sequence.\<close>

definition and_then :: "error + 'a \<Rightarrow> ('a \<Rightarrow> error + 'b) \<Rightarrow> error + 'b" where
  "and_then r f = (case r of Inl e \<Rightarrow> Inl e | Inr x \<Rightarrow> f x)"

text \<open>Truthiness, as \<^verbatim>\<open>||\<close> tests it.\<close>

fun truthy :: "jsval \<Rightarrow> bool" where
  "truthy Undefined = False"
| "truthy (Val JNull) = False"
| "truthy (Val (JBool b)) = b"
| "truthy (Val (JNum n)) = (n \<noteq> 0)"
| "truthy (Val (JStr s)) = (s \<noteq> [])"
| "truthy (Val (JArr xs)) = True"
| "truthy (Val (JObj ps)) = True"

text \<open>\<^verbatim>\<open>a || b\<close> and \<^verbatim>\<open>a ?? b\<close>.\<close>

definition js_or :: "jsval \<Rightarrow> jsval \<Rightarrow> jsval" where
  "js_or a b = (if truthy a then a else b)"

fun nullish :: "jsval \<Rightarrow> bool" where
  "nullish Undefined = True"
| "nullish (Val JNull) = True"
| "nullish (Val v) = False"

definition coalesce :: "jsval \<Rightarrow> jsval \<Rightarrow> jsval" where
  "coalesce a b = (if nullish a then b else a)"

text \<open>
  \<^verbatim>\<open>v.name\<close>: a TypeError on null and undefined, the property of an object, and
  undefined on every other value (none of the names the component reads is a property
  of a string, number, boolean or array).
\<close>

fun get_prop :: "jsval \<Rightarrow> string \<Rightarrow> error + jsval" where
  "get_prop Undefined name = Inl TypeError"
| "get_prop (Val JNull) name = Inl TypeError"
| "get_prop (Val (JObj ps)) name =
     Inr (case map_of ps name of None \<Rightarrow> Undefined | Some v \<Rightarrow> Val v)"
| "get_prop (Val v) name = Inr Undefined"

text \<open>\<^verbatim>\<open>v?.name\<close>: undefined on null and undefined, never an error.\<close>

definition opt_prop :: "jsval \<Rightarrow> string \<Rightarrow> jsval" where
  "opt_prop v name = (case get_prop v name of Inl e \<Rightarrow> Undefined | Inr x \<Rightarrow> x)"

section \<open>Records and the selection store\<close>

text \<open>The type \<^verbatim>\<open>Artwork\<close> (lines 12-20); the field \<^verbatim>\<open>id\<close> is \<open>id'\<close> here.\<close>

record Artwork =
  id' :: jsval
  title :: jsval
  place_of_origin :: jsval
  artist_display :: jsval
  inscriptions :: jsval
  date_start :: jsval
  date_end :: jsval

text \<open>\<^verbatim>\<open>Pick<Artwork, 'id' | 'title' | 'artist_display'>\<close>, the value type of the store.\<close>

record Picked =
  picked_id :: jsval
  picked_title :: jsval
  picked_artist_display :: jsval

text \<open>The object literal \<^verbatim>\<open>{ id: row.id, title: row.title, artist_display: row.artist_display }\<close>.\<close>

definition pick :: "Artwork \<Rightarrow> Picked" where
  "pick row = \<lparr>picked_id = id' row, picked_title = title row,
               picked_artist_display = artist_display row\<rparr>"

text \<open>
  A JavaScript \<^verbatim>\<open>Map\<close> keeps its entries in insertion order, one per key: \<^verbatim>\<open>set\<close>
  replaces the value of a key in place or appends, \<^verbatim>\<open>delete\<close> removes the entry.
\<close>

type_synonym selection_store = "(jsval \<times> Picked) list"

definition Map_set :: "jsval \<Rightarrow> Picked \<Rightarrow> selection_store \<Rightarrow> selection_store" where
  "Map_set k v m = AList.update k v m"

definition Map_delete :: "jsval \<Rightarrow> selection_store \<Rightarrow> selection_store" where
  "Map_delete k m = AList.delete k m"

definition Map_get :: "selection_store \<Rightarrow> jsval \<Rightarrow> Picked option" where
  "Map_get m k = map_of m k"

definition Map_has :: "selection_store \<Rightarrow> jsval \<Rightarrow> bool" where
  "Map_has m k = (map_of m k \<noteq> None)"

definition Map_values :: "selection_store \<Rightarrow> Picked list" where
  "Map_values m = map snd m"

definition Map_keys :: "selection_store \<Rightarrow> jsval set" where
  "Map_keys m = set (map fst m)"

section \<open>The state of the component\<close>

text \<open>
  The six \<^verbatim>\<open>useState\<close> cells (lines 30-41), and the two effects the component has on
  the outside: what it wrote with \<^verbatim>\<open>console.error\<close>, and the requests it made with
  \<^verbatim>\<open>fetch\<close> (page and limit). \<open>inflight\<close> holds the calls of \<^verbatim>\<open>fetchPage\<close> that wait at
  an \<^verbatim>\<open>await\<close>, each with the \<^verbatim>\<open>selectedMap\<close> of the render that made the call: that
  constant, not the state cell, is what line 64 reads when the call resumes.
\<close>

record state =
  rows :: "Artwork list"
  loading :: bool
  totalRecords :: jsval
  currentPage :: int
  selectedMap :: selection_store
  pageSelection :: "Artwork list"
  console_error :: "(string \<times> error) list"
  requests :: "(int \<times> int) list"
  inflight :: "selection_store list"

definition pageSize :: int where
  "pageSize = 10"

definition mount :: state where
  "mount = \<lparr>rows = [], loading = False, totalRecords = Val (JNum 0), currentPage = 1,
            selectedMap = [], pageSelection = [], console_error = [], requests = [],
            inflight = []\<rparr>"

section \<open>The page loader\<close>

text \<open>The callback of \<^verbatim>\<open>map\<close> (lines 50-58), on one element of \<^verbatim>\<open>data\<close>.\<close>

definition normalize :: "jsval \<Rightarrow> error + Artwork" where
  "normalize d =
     and_then (get_prop d ''id'') (\<lambda>v_id.
     and_then (get_prop d ''title'') (\<lambda>v_title.
     and_then (get_prop d ''place_of_origin'') (\<lambda>v_place.
     and_then (get_prop d ''artist_display'') (\<lambda>v_artist.
     and_then (get_prop d ''inscriptions'') (\<lambda>v_inscr.
     and_then (get_prop d ''date_start'') (\<lambda>v_start.
     and_then (get_prop d ''date_end'') (\<lambda>v_end.
       Inr \<lparr>id' = v_id,
            title = v_title,
            place_of_origin = coalesce v_place (Val JNull),
            artist_display = coalesce v_artist (Val JNull),
            inscriptions = coalesce v_inscr (Val JNull),
            date_start = coalesce v_start (Val JNull),
            date_end = coalesce v_end (Val JNull)\<rparr>)))))))"

fun map_normalize :: "json list \<Rightarrow> error + Artwork list" where
  "map_normalize [] = Inr []"
| "map_normalize (d # ds) =
     and_then (normalize (Val d)) (\<lambda>a.
     and_then (map_normalize ds) (\<lambda>as. Inr (a # as)))"

text \<open>
  \<^verbatim>\<open>(json.data || []).map(...)\<close>: reading \<^verbatim>\<open>data\<close> throws on a null body; a truthy
  \<^verbatim>\<open>data\<close> that is not an array has no function \<^verbatim>\<open>map\<close>.
\<close>

definition artworks_of :: "json \<Rightarrow> error + Artwork list" where
  "artworks_of body =
     and_then (get_prop (Val body) ''data'') (\<lambda>data.
       case js_or data (Val (JArr [])) of
         Val (JArr ds) \<Rightarrow> map_normalize ds
       | _ \<Rightarrow> Inl TypeError)"

text \<open>\<^verbatim>\<open>json.pagination?.total ?? 0\<close>.\<close>

definition total_of :: "json \<Rightarrow> error + jsval" where
  "total_of body =
     and_then (get_prop (Val body) ''pagination'') (\<lambda>pagination.
       Inr (coalesce (opt_prop pagination ''total'') (Val (JNum 0))))"

text \<open>
  \<^verbatim>\<open>fetchPage\<close> up to its first \<^verbatim>\<open>await\<close>: the loading flag is set and the request
  leaves.
\<close>

definition fetchPage_start :: "int \<Rightarrow> state \<Rightarrow> state" where
  "fetchPage_start page st =
     st\<lparr>loading := True, requests := requests st @ [(page, pageSize)]\<rparr>"

text \<open>
  The rest of the \<^verbatim>\<open>try\<close> block, from the outcome of the two awaits (\<open>Inl\<close>: one of
  them rejected, \<open>Inr\<close>: the parsed body). It gives the state reached and the error
  thrown, if any. \<open>captured\<close> is the \<^verbatim>\<open>selectedMap\<close> of the closure.
\<close>

definition try_block :: "selection_store \<Rightarrow> error + json \<Rightarrow> state \<Rightarrow> state \<times> error option" where
  "try_block captured outcome st =
     (case outcome of
        Inl e \<Rightarrow> (st, Some e)
      | Inr body \<Rightarrow>
          (case artworks_of body of
             Inl e \<Rightarrow> (st, Some e)
           | Inr artworks \<Rightarrow>
               let st1 = st\<lparr>rows := artworks\<rparr> in
               (case total_of body of
                  Inl e \<Rightarrow> (st1, Some e)
                | Inr total_v \<Rightarrow>
                    let st2 = st1\<lparr>totalRecords := total_v\<rparr>;
                        restored = filter (\<lambda>r. Map_has captured (id' r)) artworks
                    in (st2\<lparr>pageSelection := restored\<rparr>, None))))"

text \<open>\<^verbatim>\<open>fetchPage\<close> from the await on: \<^verbatim>\<open>try\<close>, \<^verbatim>\<open>catch\<close> and \<^verbatim>\<open>finally\<close>.\<close>

definition fetchPage_resume :: "selection_store \<Rightarrow> error + json \<Rightarrow> state \<Rightarrow> state" where
  "fetchPage_resume captured outcome st =
     (let (st1, thrown) = try_block captured outcome st;
          st2 = (case thrown of
                   None \<Rightarrow> st1
                 | Some err \<Rightarrow> st1\<lparr>console_error := console_error st1 @ [(''fetch error'', err)]\<rparr>)
      in st2\<lparr>loading := False\<rparr>)"

text \<open>A call of \<^verbatim>\<open>fetchPage\<close> whose response arrives before any other event.\<close>

definition fetchPage :: "int \<Rightarrow> error + json \<Rightarrow> state \<Rightarrow> state" where
  "fetchPage page outcome st =
     fetchPage_resume (selectedMap st) outcome (fetchPage_start page st)"

text \<open>\<^verbatim>\<open>onPageChange\<close> (lines 77-81), up to the await of the fetch it starts.\<close>

definition onPageChange :: "int \<Rightarrow> state \<Rightarrow> state" where
  "onPageChange e_page st =
     (let newPage = e_page + 1
      in fetchPage_start newPage (st\<lparr>currentPage := newPage\<rparr>))"

text \<open>A page change whose response arrives before any other event.\<close>

definition navigate :: "int \<Rightarrow> error + json \<Rightarrow> state \<Rightarrow> state" where
  "navigate e_page outcome st =
     fetchPage_resume (selectedMap st) outcome (onPageChange e_page st)"

section \<open>The selection handlers\<close>

text \<open>
  A handler runs to its end before the next one starts, on the values of the latest
  render: the \<^verbatim>\<open>rows\<close> it reads are those of the state it is applied to, as is the
  \<^verbatim>\<open>prev\<close> its updater function receives. The two \<^verbatim>\<open>forEach\<close> loops are folds.
\<close>

definition set_selected :: "Artwork list \<Rightarrow> selection_store \<Rightarrow> selection_store" where
  "set_selected selected copy = fold (\<lambda>row c. Map_set (id' row) (pick row) c) selected copy"

definition delete_unselected ::
  "Artwork list \<Rightarrow> Artwork list \<Rightarrow> selection_store \<Rightarrow> selection_store" where
  "delete_unselected selected rs copy =
     fold (\<lambda>row c. if find (\<lambda>s. id' s = id' row) selected = None
                    then Map_delete (id' row) c else c) rs copy"

definition onSelectionChange :: "Artwork list \<Rightarrow> state \<Rightarrow> state" where
  "onSelectionChange selected st =
     st\<lparr>pageSelection := selected,
        selectedMap := delete_unselected selected (rows st)
                         (set_selected selected (selectedMap st))\<rparr>"

definition selectAllOnPage :: "state \<Rightarrow> state" where
  "selectAllOnPage st =
     st\<lparr>selectedMap := set_selected (rows st) (selectedMap st),
        pageSelection := rows st\<rparr>"

definition delete_rows :: "Artwork list \<Rightarrow> selection_store \<Rightarrow> selection_store" where
  "delete_rows rs copy = fold (\<lambda>r c. Map_delete (id' r) c) rs copy"

definition clearSelectionOnPage :: "state \<Rightarrow> state" where
  "clearSelectionOnPage st =
     st\<lparr>selectedMap := delete_rows (rows st) (selectedMap st),
        pageSelection := []\<rparr>"

definition removeFromSelection :: "jsval \<Rightarrow> state \<Rightarrow> state" where
  "removeFromSelection k st =
     st\<lparr>selectedMap := Map_delete k (selectedMap st),
        pageSelection := filter (\<lambda>r. id' r \<noteq> k) (pageSelection st)\<rparr>"

text \<open>\<^verbatim>\<open>Array.from(selectedMap.values())\<close> of the summary panel (line 145).\<close>

definition read_all :: "state \<Rightarrow> Picked list" where
  "read_all st = Map_values (selectedMap st)"

section \<open>Sequences of events\<close>

text \<open>
  The callbacks the component can receive. \<open>PageChange\<close> starts a fetch, whose call
  joins \<open>inflight\<close> with the \<^verbatim>\<open>selectedMap\<close> of that moment; \<open>Settle i outcome\<close> resumes
  the \<open>i\<close>-th waiting call, in any order, with the outcome of its awaits.
\<close>

datatype action =
    SelectionChange "Artwork list"
  | SelectAllOnPage
  | ClearSelectionOnPage
  | RemoveFromSelection jsval
  | PageChange int
  | Settle nat "error + json"

fun step :: "action \<Rightarrow> state \<Rightarrow> state" where
  "step (SelectionChange selected) st = onSelectionChange selected st"
| "step SelectAllOnPage st = selectAllOnPage st"
| "step ClearSelectionOnPage st = clearSelectionOnPage st"
| "step (RemoveFromSelection k) st = removeFromSelection k st"
| "step (PageChange e_page) st =
     (onPageChange e_page st)\<lparr>inflight := inflight st @ [selectedMap st]\<rparr>"
| "step (Settle i outcome) st =
     (if i < length (inflight st)
      then fetchPage_resume (inflight st ! i) outcome
             (st\<lparr>inflight := take i (inflight st) @ drop (Suc i) (inflight st)\<rparr>)
      else st)"

fun run :: "action list \<Rightarrow> state \<Rightarrow> state" where
  "run [] st = st"
| "run (a # as) st = run as (step a st)"

text \<open>The component after its first render: the effect of line 73 has called \<^verbatim>\<open>fetchPage(1)\<close>.\<close>

definition mounted :: state where
  "mounted = (fetchPage_start 1 mount)\<lparr>inflight := [selectedMap mount]\<rparr>"

section \<open>What the claims speak of\<close>

text \<open>
  The fields a record is built from (lines 51-57): the name read from the raw record
  and the field of \<^verbatim>\<open>Artwork\<close> it fills.
\<close>

definition consumed :: "(string \<times> (Artwork \<Rightarrow> jsval)) list" where
  "consumed =
     [(''id'', id'), (''title'', title), (''place_of_origin'', place_of_origin),
      (''artist_display'', artist_display), (''inscriptions'', inscriptions),
      (''date_start'', date_start), (''date_end'', date_end)]"

text \<open>
  What an event says about an identifier: \<open>Some True\<close> when it marks it selected,
  \<open>Some False\<close> when it deselects it, \<open>None\<close> when the identifier is outside its scope.
\<close>

fun marks :: "action \<Rightarrow> state \<Rightarrow> jsval \<Rightarrow> bool option" where
  "marks (SelectionChange selected) st k =
     (if k \<in> id' ` set selected then Some True
      else if k \<in> id' ` set (rows st) then Some False
      else None)"
| "marks SelectAllOnPage st k = (if k \<in> id' ` set (rows st) then Some True else None)"
| "marks ClearSelectionOnPage st k = (if k \<in> id' ` set (rows st) then Some False else None)"
| "marks (RemoveFromSelection k') st k = (if k = k' then Some False else None)"
| "marks (PageChange e_page) st k = None"
| "marks (Settle i outcome) st k = None"

text \<open>The mark of the last event of a sequence that had the identifier in its scope.\<close>

fun last_mark :: "action list \<Rightarrow> state \<Rightarrow> jsval \<Rightarrow> bool option" where
  "last_mark [] st k = None"
| "last_mark (a # as) st k =
     (case last_mark as (step a st) k of
        Some b \<Rightarrow> Some b
      | None \<Rightarrow> marks a st k)"

text \<open>The checked rows are the visible rows whose identifier is in the store.\<close>

definition page_consistent :: "state \<Rightarrow> bool" where
  "page_consistent st \<longleftrightarrow>
     set (pageSelection st) = set (filter (\<lambda>r. Map_has (selectedMap st) (id' r)) (rows st))"

section \<open>Sample data\<close>

text \<open>A record as the API sends it, a response body, and the row built from the record.\<close>

definition sample_record :: "int \<Rightarrow> json" where
  "sample_record n = JObj [(''id'', JNum n), (''title'', JStr ''Untitled'')]"

definition sample_body :: "int list \<Rightarrow> json" where
  "sample_body ns =
     JObj [(''pagination'', JObj [(''total'', JNum 120)]),
           (''data'', JArr (map sample_record ns))]"

definition sample_row :: "int \<Rightarrow> Artwork" where
  "sample_row n =
     \<lparr>id' = Val (JNum n), title = Val (JStr ''Untitled''), place_of_origin = Val JNull,
      artist_display = Val JNull, inscriptions = Val JNull, date_start = Val JNull,
      date_end = Val JNull\<rparr>"

definition sample_artwork :: "int \<Rightarrow> string \<Rightarrow> string \<Rightarrow> Artwork" where
  "sample_artwork n t a =
     \<lparr>id' = Val (JNum n), title = Val (JStr t), place_of_origin = Val (JStr ''United States''),
      artist_display = Val (JStr a), inscriptions = Val JNull, date_start = Val (JNum 1942),
      date_end = Val (JNum 1942)\<rparr>"

definition sample_state :: "int list \<Rightarrow> int list \<Rightarrow> state" where
  "sample_state visible chosen =
     mount\<lparr>rows := map sample_row visible,
           selectedMap := map (\<lambda>n. (Val (JNum n), pick (sample_row n))) chosen,
           pageSelection := filter (\<lambda>r. id' r \<in> (\<lambda>n. Val (JNum n)) ` set chosen)
                              (map sample_row visible)\<rparr>"

section \<open>Lookup after the store loops\<close>

lemma Map_get_set: "Map_get (Map_set k v m) = (Map_get m)(k \<mapsto> v)"
  by (simp add: Map_get_def Map_set_def update_conv' fun_eq_iff)

lemma Map_get_delete: "Map_get (Map_delete k m) = (Map_get m)(k := None)"
  by (simp add: Map_get_def Map_delete_def delete_conv' fun_eq_iff)

lemma Map_has_get: "Map_has m k \<longleftrightarrow> Map_get m k \<noteq> None"
  by (simp add: Map_has_def Map_get_def)

lemma Map_keys_has: "k \<in> Map_keys m \<longleftrightarrow> Map_has m k"
  by (simp add: Map_keys_def Map_has_def map_of_eq_None_iff)

lemma get_set_selected_out:
  "k \<notin> id' ` set selected \<Longrightarrow> Map_get (set_selected selected m) k = Map_get m k"
  unfolding set_selected_def
  by (induction selected arbitrary: m) (simp_all add: Map_get_set)

lemma get_set_selected_in:
  "k \<in> id' ` set selected \<Longrightarrow> Map_get (set_selected selected m) k \<noteq> None"
  unfolding set_selected_def
proof (induction selected arbitrary: m)
  case Nil
  then show ?case by simp
next
  case (Cons s ss)
  show ?case
  proof (cases "k \<in> id' ` set ss")
    case True
    then show ?thesis using Cons.IH by simp
  next
    case False
    then have k: "k = id' s" using Cons.prems by auto
    have "Map_get (fold (\<lambda>row c. Map_set (id' row) (pick row) c) ss (Map_set (id' s) (pick s) m)) k
          = Map_get (Map_set (id' s) (pick s) m) k"
      using get_set_selected_out [OF False] by (simp add: set_selected_def)
    then show ?thesis by (simp add: k Map_get_set)
  qed
qed

lemma get_set_selected_inj:
  "inj_on id' (set selected) \<Longrightarrow> r \<in> set selected \<Longrightarrow>
   Map_get (set_selected selected m) (id' r) = Some (pick r)"
  unfolding set_selected_def
proof (induction selected arbitrary: m)
  case Nil
  then show ?case by simp
next
  case (Cons s ss)
  have inj: "inj_on id' (set ss)"
    using Cons.prems(1) by (simp add: inj_on_def)
  show ?case
  proof (cases "r \<in> set ss")
    case True
    then show ?thesis using Cons.IH [OF inj] by simp
  next
    case False
    then have r: "r = s" using Cons.prems(2) by simp
    have "id' s \<notin> id' ` set ss"
      using Cons.prems(1) False r by (auto simp: inj_on_def)
    then have "Map_get (fold (\<lambda>row c. Map_set (id' row) (pick row) c) ss
                 (Map_set (id' s) (pick s) m)) (id' s)
          = Map_get (Map_set (id' s) (pick s) m) (id' s)"
      using get_set_selected_out [of "id' s" ss] by (simp add: set_selected_def)
    then show ?thesis by (simp add: r Map_get_set)
  qed
qed

lemma find_None_ids: "find (\<lambda>s. id' s = k) selected = None \<longleftrightarrow> k \<notin> id' ` set selected"
  by (auto simp: find_None_iff)

lemma get_delete_unselected:
  "Map_get (delete_unselected selected rs m) k =
     (if k \<in> id' ` set rs \<and> k \<notin> id' ` set selected then None else Map_get m k)"
  unfolding delete_unselected_def find_None_ids
proof (induction rs arbitrary: m)
  case Nil
  then show ?case by simp
next
  case (Cons r rs)
  show ?case
    by (auto simp: Cons.IH Map_get_delete)
qed

lemma get_onSelectionChange:
  "Map_get (selectedMap (onSelectionChange selected st)) k =
     (if k \<in> id' ` set selected then Map_get (set_selected selected (selectedMap st)) k
      else if k \<in> id' ` set (rows st) then None
      else Map_get (selectedMap st) k)"
  by (simp add: onSelectionChange_def get_delete_unselected get_set_selected_out)

lemma set_selected_Map_has:
  "Map_has (set_selected sel m) k \<longleftrightarrow> k \<in> id' ` set sel \<or> Map_has m k"
proof (cases "k \<in> id' ` set sel")
  case True
  then show ?thesis using get_set_selected_in [of k sel m] by (simp add: Map_has_get)
next
  case False
  then show ?thesis using get_set_selected_out [of k sel m] by (simp add: Map_has_get)
qed

lemma get_delete_rows:
  "Map_get (delete_rows rs m) k = (if k \<in> id' ` set rs then None else Map_get m k)"
  unfolding delete_rows_def
  by (induction rs arbitrary: m) (auto simp: Map_get_delete)

lemma inj_on_ids: "distinct (map id' rs) \<Longrightarrow> inj_on id' (set rs)"
  by (simp add: distinct_map)

lemma get_selectAllOnPage_out:
  "k \<notin> id' ` set (rows st) \<Longrightarrow>
   Map_get (selectedMap (selectAllOnPage st)) k = Map_get (selectedMap st) k"
  by (simp add: selectAllOnPage_def get_set_selected_out)

lemma get_clearSelectionOnPage:
  "Map_get (selectedMap (clearSelectionOnPage st)) k =
     (if k \<in> id' ` set (rows st) then None else Map_get (selectedMap st) k)"
  by (simp add: clearSelectionOnPage_def get_delete_rows)

lemma get_removeFromSelection:
  "Map_get (selectedMap (removeFromSelection k0 st)) k =
     (if k = k0 then None else Map_get (selectedMap st) k)"
  by (simp add: removeFromSelection_def Map_get_delete)

lemma Map_get_in_values: "Map_get m k = Some e \<Longrightarrow> e \<in> set (Map_values m)"
  unfolding Map_get_def Map_values_def
  by (metis map_of_SomeD set_zip_rightD zip_map_fst_snd)

text \<open>The definitions to unfold when the model is run on the sample data.\<close>

lemmas eval_defs =
  sample_state_def sample_row_def sample_artwork_def sample_record_def sample_body_def
  mount_def pick_def
  Map_get_def Map_has_def Map_set_def Map_delete_def Map_values_def Map_keys_def
  onSelectionChange_def set_selected_def delete_unselected_def delete_rows_def
  selectAllOnPage_def clearSelectionOnPage_def removeFromSelection_def read_all_def

lemma rows_selectAllOnPage: "rows (selectAllOnPage st) = rows st"
  by (simp add: selectAllOnPage_def)

section \<open>Events and the store\<close>

lemma try_block_store: "selectedMap (fst (try_block captured outcome st)) = selectedMap st"
  by (simp add: try_block_def Let_def split: sum.splits)

lemma selectedMap_fetchPage_resume:
  "selectedMap (fetchPage_resume captured outcome st) = selectedMap st"
  using try_block_store [of captured outcome st]
  by (cases "try_block captured outcome st")
     (simp add: fetchPage_resume_def split: option.splits)

lemma rows_fetchPage_start: "rows (fetchPage_start page st) = rows st"
  by (simp add: fetchPage_start_def)

lemma selectedMap_onPageChange: "selectedMap (onPageChange e_page st) = selectedMap st"
  by (simp add: onPageChange_def fetchPage_start_def Let_def)

lemma has_onSelectionChange:
  "Map_has (selectedMap (onSelectionChange selected st)) k =
     (if k \<in> id' ` set selected then True
      else if k \<in> id' ` set (rows st) then False
      else Map_has (selectedMap st) k)"
  using get_set_selected_in [of k selected "selectedMap st"]
  by (simp add: Map_has_get get_onSelectionChange)

lemma has_selectAllOnPage:
  "Map_has (selectedMap (selectAllOnPage st)) k =
     (if k \<in> id' ` set (rows st) then True else Map_has (selectedMap st) k)"
  by (simp add: selectAllOnPage_def set_selected_Map_has)

lemma has_step:
  "Map_has (selectedMap (step a st)) k =
     (case marks a st k of Some b \<Rightarrow> b | None \<Rightarrow> Map_has (selectedMap st) k)"
proof (cases a)
  case (SelectionChange selected)
  then show ?thesis by (simp add: has_onSelectionChange)
next
  case SelectAllOnPage
  then show ?thesis by (simp add: has_selectAllOnPage)
next
  case ClearSelectionOnPage
  then show ?thesis by (simp add: Map_has_get get_clearSelectionOnPage)
next
  case (RemoveFromSelection k')
  then show ?thesis by (simp add: Map_has_get get_removeFromSelection)
next
  case (PageChange e_page)
  then show ?thesis by (simp add: selectedMap_onPageChange)
next
  case (Settle i outcome)
  then show ?thesis by (simp add: selectedMap_fetchPage_resume)
qed

lemma has_run:
  "Map_has (selectedMap (run as st)) k =
     (case last_mark as st k of Some b \<Rightarrow> b | None \<Rightarrow> Map_has (selectedMap st) k)"
proof (induction as arbitrary: st)
  case Nil
  then show ?case by simp
next
  case (Cons a as)
  show ?case
    by (simp add: Cons.IH has_step split: option.splits)
qed

section \<open>A successful response\<close>

lemmas fetch_defs =
  fetchPage_def fetchPage_resume_def fetchPage_start_def try_block_def artworks_of_def
  total_of_def normalize_def and_then_def js_or_def coalesce_def opt_prop_def
  onPageChange_def navigate_def pageSize_def mounted_def

lemma get_prop_total:
  "get_prop v name = Inr x \<Longrightarrow> get_prop v name' = Inr (opt_prop v name')"
  by (cases "(v, name)" rule: get_prop.cases) (simp_all add: opt_prop_def)

lemma get_prop_not_null:
  "body \<noteq> JNull \<Longrightarrow> get_prop (Val body) name = Inr (opt_prop (Val body) name)"
  by (cases body) (simp_all add: opt_prop_def)

lemma total_of_ok:
  assumes "get_prop (Val body) name = Inr x"
  shows "total_of body =
           Inr (coalesce (opt_prop (opt_prop (Val body) ''pagination'') ''total'') (Val (JNum 0)))"
  using get_prop_total [OF assms, of "''pagination''"]
  by (simp add: total_of_def and_then_def)

lemma fetchPage_resume_ok:
  assumes "artworks_of body = Inr artworks"
  shows "fetchPage_resume captured (Inr body) st =
           st\<lparr>rows := artworks,
              totalRecords :=
                coalesce (opt_prop (opt_prop (Val body) ''pagination'') ''total'') (Val (JNum 0)),
              pageSelection := filter (\<lambda>r. Map_has captured (id' r)) artworks,
              loading := False\<rparr>"
proof -
  from assms obtain d where "get_prop (Val body) ''data'' = Inr d"
    by (auto simp: artworks_of_def and_then_def split: sum.splits)
  then have "total_of body =
      Inr (coalesce (opt_prop (opt_prop (Val body) ''pagination'') ''total'') (Val (JNum 0)))"
    by (rule total_of_ok)
  with assms show ?thesis
    by (simp add: fetchPage_resume_def try_block_def)
qed

lemma artworks_of_no_data:
  assumes "get_prop (Val body) ''data'' = Inr d" and "nullish d"
  shows "artworks_of body = Inr []"
proof -
  from assms(2) have "\<not> truthy d" by (cases d rule: nullish.cases) simp_all
  with assms(1) show ?thesis
    by (simp add: artworks_of_def and_then_def js_or_def)
qed

section \<open>Normalisation of the records\<close>

lemma normalize_Inr:
  assumes "normalize d = Inr a"
  shows "a = \<lparr>id' = opt_prop d ''id'', title = opt_prop d ''title'',
              place_of_origin = coalesce (opt_prop d ''place_of_origin'') (Val JNull),
              artist_display = coalesce (opt_prop d ''artist_display'') (Val JNull),
              inscriptions = coalesce (opt_prop d ''inscriptions'') (Val JNull),
              date_start = coalesce (opt_prop d ''date_start'') (Val JNull),
              date_end = coalesce (opt_prop d ''date_end'') (Val JNull)\<rparr> \<and>
         (\<forall>name. get_prop d name = Inr (opt_prop d name))"
proof -
  from assms obtain x where x: "get_prop d ''id'' = Inr x"
    by (auto simp: normalize_def and_then_def split: sum.splits)
  have all: "get_prop d name = Inr (opt_prop d name)" for name
    using x by (rule get_prop_total)
  from assms show ?thesis
    by (simp add: normalize_def and_then_def all)
qed

lemma coalesce_cases:
  "(case x of Undefined \<Rightarrow> nullish (coalesce x (Val JNull)) | Val v \<Rightarrow> coalesce x (Val JNull) = Val v)"
  by (cases x rule: nullish.cases) (simp_all add: coalesce_def)

lemma passed_cases:
  "(case x of Undefined \<Rightarrow> nullish x | Val v \<Rightarrow> x = Val v)"
  by (cases x) simp_all

lemma map_normalize_nth:
  "map_normalize ds = Inr arts \<Longrightarrow>
   length arts = length ds \<and> (\<forall>i < length ds. normalize (Val (ds ! i)) = Inr (arts ! i))"
proof (induction ds arbitrary: arts)
  case Nil
  then show ?case by simp
next
  case (Cons d ds)
  from Cons.prems obtain a as where
    a: "normalize (Val d) = Inr a" and as: "map_normalize ds = Inr as" and arts: "arts = a # as"
    by (auto simp: and_then_def split: sum.splits)
  from Cons.IH [OF as] a arts show ?case
    by (auto simp: nth_Cons split: nat.splits)
qed

section \<open>Checked rows and the store\<close>

lemma pageSelection_navigate_ok:
  assumes "artworks_of body = Inr artworks"
  shows "pageSelection (navigate e_page (Inr body) st) =
           filter (\<lambda>r. Map_has (selectedMap st) (id' r)) artworks"
    and "rows (navigate e_page (Inr body) st) = artworks"
  by (simp_all add: navigate_def fetchPage_resume_ok [OF assms])

text \<open>
  A page change whose response arrives before any other event, and a selection change
  among visible rows with distinct identifiers, leave the checked rows as the visible
  rows of the store.
\<close>

lemma page_consistent_navigate:
  "artworks_of body = Inr artworks \<Longrightarrow> page_consistent (navigate e_page (Inr body) st)"
proof -
  assume a: "artworks_of body = Inr artworks"
  have "selectedMap (navigate e_page (Inr body) st) = selectedMap st"
    by (simp add: navigate_def selectedMap_fetchPage_resume selectedMap_onPageChange)
  then show ?thesis
    by (simp add: page_consistent_def pageSelection_navigate_ok [OF a])
qed

lemma page_consistent_onSelectionChange:
  assumes "distinct (map id' (rows st))" and "set selected \<subseteq> set (rows st)"
  shows "page_consistent (onSelectionChange selected st)"
proof -
  have inj: "inj_on id' (set (rows st))"
    using assms(1) by (rule inj_on_ids)
  have "r \<in> set selected \<longleftrightarrow> id' r \<in> id' ` set selected" if "r \<in> set (rows st)" for r
    using that assms(2) inj by (auto dest: inj_onD)
  then have "set (filter (\<lambda>r. Map_has (selectedMap (onSelectionChange selected st)) (id' r))
                (rows st)) = set selected"
    using assms(2) by (auto simp: has_onSelectionChange)
  then show ?thesis
    by (simp add: page_consistent_def onSelectionChange_def)
qed

text \<open>
  From a state whose checked rows are the visible rows of the store, a page change, any
  events that leave the presence of the old page's identifiers as it was, and a page
  change back with the same records give the visible rows and the checked rows of
  before.
\<close>

lemma back_to_page_from_consistent:
  assumes "page_consistent st0"
      and "artworks_of body1 = Inr (rows st0)"
      and "\<forall>r \<in> set (rows st0).
             Map_has (selectedMap (run acts (navigate e2 outcome2 st0))) (id' r)
               = Map_has (selectedMap st0) (id' r)"
  shows "rows (navigate e1 (Inr body1) (run acts (navigate e2 outcome2 st0))) = rows st0 \<and>
         set (pageSelection (navigate e1 (Inr body1) (run acts (navigate e2 outcome2 st0))))
           = set (pageSelection st0)"
proof -
  let ?st2 = "run acts (navigate e2 outcome2 st0)"
  have "set (filter (\<lambda>r. Map_has (selectedMap ?st2) (id' r)) (rows st0))
          = set (filter (\<lambda>r. Map_has (selectedMap st0) (id' r)) (rows st0))"
    using assms(3) by auto
  with assms(1) show ?thesis
    by (simp add: pageSelection_navigate_ok [OF assms(2)] page_consistent_def)
qed

section \<open>The claims\<close>

text \<open>
  C1. Toggle page selection. When the identifiers of the visible rows are pairwise
  distinct (the identifier of a record is unique) and the checked rows are among the
  visible ones, then after \<^verbatim>\<open>onSelectionChange\<close> the identifier of every checked row
  maps to the entry that holds the identifier, the title and the artist text of that
  row, the identifier of every visible row left unchecked is absent, every identifier
  that belongs to no visible row maps to what it mapped to before, and the identifiers
  present are the checked ones together with those present before that are not on the
  page.
\<close>

theorem onSelectionChange_store:
  assumes "distinct (map id' (rows st))" and "set selected \<subseteq> set (rows st)"
  shows "(\<forall>r \<in> set selected.
            Map_get (selectedMap (onSelectionChange selected st)) (id' r)
              = Some \<lparr>picked_id = id' r, picked_title = title r,
                       picked_artist_display = artist_display r\<rparr>) \<and>
         (\<forall>r \<in> set (rows st) - set selected.
            Map_get (selectedMap (onSelectionChange selected st)) (id' r) = None) \<and>
         (\<forall>k. k \<notin> id' ` set (rows st) \<longrightarrow>
            Map_get (selectedMap (onSelectionChange selected st)) k = Map_get (selectedMap st) k) \<and>
         Map_keys (selectedMap (onSelectionChange selected st)) =
           id' ` set selected \<union> (Map_keys (selectedMap st) - id' ` set (rows st))"
proof -
  have inj: "inj_on id' (set (rows st))"
    using assms(1) by (rule inj_on_ids)
  then have inj_sel: "inj_on id' (set selected)"
    using assms(2) by (rule inj_on_subset)
  have checked: "Map_get (selectedMap (onSelectionChange selected st)) (id' r)
                   = Some \<lparr>picked_id = id' r, picked_title = title r,
                            picked_artist_display = artist_display r\<rparr>"
    if "r \<in> set selected" for r
    using that get_set_selected_inj [OF inj_sel that]
    by (simp add: get_onSelectionChange pick_def)
  have unch: "Map_get (selectedMap (onSelectionChange selected st)) (id' r) = None"
    if "r \<in> set (rows st) - set selected" for r
  proof -
    have "id' r \<notin> id' ` set selected"
    proof
      assume "id' r \<in> id' ` set selected"
      then obtain s where s: "s \<in> set selected" "id' r = id' s" by auto
      with assms(2) that inj have "r = s" by (auto dest: inj_onD)
      with s that show False by simp
    qed
    with that show ?thesis by (simp add: get_onSelectionChange)
  qed
  have other: "Map_get (selectedMap (onSelectionChange selected st)) k = Map_get (selectedMap st) k"
    if "k \<notin> id' ` set (rows st)" for k
  proof -
    from that assms(2) have "k \<notin> id' ` set selected" by auto
    with that show ?thesis by (simp add: get_onSelectionChange)
  qed
  have keys: "Map_keys (selectedMap (onSelectionChange selected st)) =
           id' ` set selected \<union> (Map_keys (selectedMap st) - id' ` set (rows st))"
    using get_set_selected_in [of _ selected "selectedMap st"]
    by (auto simp: Map_keys_has Map_has_get get_onSelectionChange split: if_splits)
  from checked unch other keys show ?thesis by blast
qed

theorem onSelectionChange_store_witness:
  "distinct (map id' (rows ((sample_state [1, 3] [1, 7])
      \<lparr>rows := [sample_row 1, sample_artwork 2 ''Nighthawks'' ''Edward Hopper'',
                sample_row 3]\<rparr>))) \<and>
   set [sample_artwork 2 ''Nighthawks'' ''Edward Hopper'']
     \<subseteq> set (rows ((sample_state [1, 3] [1, 7])
      \<lparr>rows := [sample_row 1, sample_artwork 2 ''Nighthawks'' ''Edward Hopper'',
                sample_row 3]\<rparr>)) \<and>
   Map_get (selectedMap (onSelectionChange [sample_artwork 2 ''Nighthawks'' ''Edward Hopper'']
      ((sample_state [1, 3] [1, 7])
      \<lparr>rows := [sample_row 1, sample_artwork 2 ''Nighthawks'' ''Edward Hopper'',
                sample_row 3]\<rparr>))) (Val (JNum 2))
     = Some \<lparr>picked_id = Val (JNum 2), picked_title = Val (JStr ''Nighthawks''),
              picked_artist_display = Val (JStr ''Edward Hopper'')\<rparr> \<and>
   Map_get (selectedMap (onSelectionChange [sample_artwork 2 ''Nighthawks'' ''Edward Hopper'']
      ((sample_state [1, 3] [1, 7])
      \<lparr>rows := [sample_row 1, sample_artwork 2 ''Nighthawks'' ''Edward Hopper'',
                sample_row 3]\<rparr>))) (Val (JNum 1)) = None \<and>
   Map_get (selectedMap (onSelectionChange [sample_artwork 2 ''Nighthawks'' ''Edward Hopper'']
      ((sample_state [1, 3] [1, 7])
      \<lparr>rows := [sample_row 1, sample_artwork 2 ''Nighthawks'' ''Edward Hopper'',
                sample_row 3]\<rparr>))) (Val (JNum 7))
     = Some \<lparr>picked_id = Val (JNum 7), picked_title = Val (JStr ''Untitled''),
              picked_artist_display = Val JNull\<rparr>"
proof -
  let ?st = "(sample_state [1, 3] [1, 7])
      \<lparr>rows := [sample_row 1, sample_artwork 2 ''Nighthawks'' ''Edward Hopper'',
                sample_row 3]\<rparr>"
  have d: "distinct (map id' (rows ?st))"
    by (simp add: sample_state_def sample_row_def sample_artwork_def mount_def)
  have s: "set [sample_artwork 2 ''Nighthawks'' ''Edward Hopper''] \<subseteq> set (rows ?st)"
    by (simp add: sample_state_def mount_def)
  from onSelectionChange_store [OF d s] d s show ?thesis
    by (simp add: eval_defs)
qed

text \<open>
  C2. Presence in the store follows the last mark. Whatever events the component
  receives after its mount (selection changes, select all, clear, removals, page changes
  and responses in any order), an identifier is in the store afterwards exactly when the
  last event that had it in its scope marked it selected; an identifier that no event had
  in its scope is absent, as in the empty store of the mount.
\<close>

theorem present_iff_last_mark:
  "Map_has (selectedMap (run as mounted)) k \<longleftrightarrow> last_mark as mounted k = Some True"
proof -
  have "\<not> Map_has (selectedMap mounted) k"
    by (simp add: mounted_def mount_def fetchPage_start_def Map_has_def)
  then show ?thesis
    by (cases "last_mark as mounted k") (simp_all add: has_run)
qed

theorem present_iff_last_mark_witness:
  "last_mark [Settle 0 (Inr (sample_body [1, 2, 3])), SelectAllOnPage, PageChange 1,
              Settle 0 (Inr (sample_body [4, 5])), SelectionChange [],
              RemoveFromSelection (Val (JNum 2))] mounted (Val (JNum 2)) = Some False \<and>
   \<not> Map_has (selectedMap (run [Settle 0 (Inr (sample_body [1, 2, 3])), SelectAllOnPage,
              PageChange 1, Settle 0 (Inr (sample_body [4, 5])), SelectionChange [],
              RemoveFromSelection (Val (JNum 2))] mounted)) (Val (JNum 2)) \<and>
   last_mark [Settle 0 (Inr (sample_body [1, 2, 3])), SelectAllOnPage, PageChange 1,
              Settle 0 (Inr (sample_body [4, 5])), SelectionChange [],
              RemoveFromSelection (Val (JNum 2))] mounted (Val (JNum 3)) = Some True \<and>
   Map_has (selectedMap (run [Settle 0 (Inr (sample_body [1, 2, 3])), SelectAllOnPage,
              PageChange 1, Settle 0 (Inr (sample_body [4, 5])), SelectionChange [],
              RemoveFromSelection (Val (JNum 2))] mounted)) (Val (JNum 3))"
  using
    present_iff_last_mark [of "[Settle 0 (Inr (sample_body [1, 2, 3])), SelectAllOnPage,
              PageChange 1, Settle 0 (Inr (sample_body [4, 5])), SelectionChange [],
              RemoveFromSelection (Val (JNum 2))]" "Val (JNum 2)"]
    present_iff_last_mark [of "[Settle 0 (Inr (sample_body [1, 2, 3])), SelectAllOnPage,
              PageChange 1, Settle 0 (Inr (sample_body [4, 5])), SelectionChange [],
              RemoveFromSelection (Val (JNum 2))]" "Val (JNum 3)"]
  by (simp add: eval_defs fetch_defs)

text \<open>
  C3. Select all on page, then clear page selection. The claim that the store agrees
  again with the store \<open>S\<close> before the two operations on the identifiers of the page
  fails when one of them was selected in \<open>S\<close>: an entry of a visible row that was there
  before is removed as well.
\<close>

theorem select_all_then_clear_counterexample:
  "sample_row 1 \<in> set (rows (sample_state [1, 2] [1])) \<and>
   Map_get (selectedMap (sample_state [1, 2] [1])) (id' (sample_row 1))
     = Some (pick (sample_row 1)) \<and>
   Map_get (selectedMap (clearSelectionOnPage (selectAllOnPage (sample_state [1, 2] [1]))))
     (id' (sample_row 1)) = None"
  by (simp add: eval_defs)

text \<open>
  C3, as the code has it. After select all on page followed by clear page selection
  no identifier of a visible row is present, and every other identifier maps to what it
  mapped to before; so the store agrees with the one before on the identifiers of the
  page exactly when none of them was present before.
\<close>

theorem select_all_then_clear:
  "(\<forall>r \<in> set (rows st).
      Map_get (selectedMap (clearSelectionOnPage (selectAllOnPage st))) (id' r) = None) \<and>
   (\<forall>k. k \<notin> id' ` set (rows st) \<longrightarrow>
      Map_get (selectedMap (clearSelectionOnPage (selectAllOnPage st))) k
        = Map_get (selectedMap st) k) \<and>
   ((\<forall>r \<in> set (rows st).
      Map_get (selectedMap (clearSelectionOnPage (selectAllOnPage st))) (id' r)
        = Map_get (selectedMap st) (id' r))
    \<longleftrightarrow> (\<forall>r \<in> set (rows st). \<not> Map_has (selectedMap st) (id' r)))"
  by (simp add: get_clearSelectionOnPage rows_selectAllOnPage get_selectAllOnPage_out
      Map_has_get eq_commute)

theorem select_all_then_clear_witness:
  "Map_get (selectedMap (clearSelectionOnPage (selectAllOnPage (sample_state [1, 2] [7]))))
     (id' (sample_row 2)) = None \<and>
   Map_get (selectedMap (clearSelectionOnPage (selectAllOnPage (sample_state [1, 2] [7]))))
     (Val (JNum 7)) = Some (pick (sample_row 7)) \<and>
   map (\<lambda>r. Map_get (selectedMap (clearSelectionOnPage (selectAllOnPage
          (sample_state [1, 2] [7])))) (id' r)) (rows (sample_state [1, 2] [7]))
     = map (\<lambda>r. Map_get (selectedMap (sample_state [1, 2] [7])) (id' r))
         (rows (sample_state [1, 2] [7]))"
  using select_all_then_clear [of "sample_state [1, 2] [7]"]
  by (simp add: eval_defs)

text \<open>
  C4. Normalisation of a raw record. In a response whose \<^verbatim>\<open>data\<close> is an array and whose
  processing succeeds, the \<open>i\<close>-th row is built from the \<open>i\<close>-th raw record: each of the
  seven consumed fields holds the value the raw record has under that name, and
  undefined or null when the raw record has none; and the row depends on nothing else,
  since any value that reads the same under the seven names gives the same row.
\<close>

theorem normalized_fields:
  assumes "get_prop (Val body) ''data'' = Inr (Val (JArr ds))"
      and "artworks_of body = Inr artworks"
      and "i < length ds"
  shows "i < length artworks \<and>
         (\<forall>(name, field) \<in> set consumed.
            case opt_prop (Val (ds ! i)) name of
              Val v \<Rightarrow> field (artworks ! i) = Val v
            | Undefined \<Rightarrow> nullish (field (artworks ! i))) \<and>
         (\<forall>d'. (\<forall>name \<in> fst ` set consumed. get_prop d' name = get_prop (Val (ds ! i)) name)
            \<longrightarrow> normalize d' = Inr (artworks ! i))"
proof -
  from assms(1,2) have "map_normalize ds = Inr artworks"
    by (simp add: artworks_of_def and_then_def js_or_def)
  from map_normalize_nth [OF this] assms(3)
  have len: "i < length artworks" and n: "normalize (Val (ds ! i)) = Inr (artworks ! i)"
    by simp_all
  note a = normalize_Inr [OF n]
  have fields: "\<forall>(name, field) \<in> set consumed.
            case opt_prop (Val (ds ! i)) name of
              Val v \<Rightarrow> field (artworks ! i) = Val v
            | Undefined \<Rightarrow> nullish (field (artworks ! i))"
  proof -
    let ?a = "artworks ! i" and ?d = "Val (ds ! i)"
    from a have sel:
      "id' ?a = opt_prop ?d ''id''"
      "title ?a = opt_prop ?d ''title''"
      "place_of_origin ?a = coalesce (opt_prop ?d ''place_of_origin'') (Val JNull)"
      "artist_display ?a = coalesce (opt_prop ?d ''artist_display'') (Val JNull)"
      "inscriptions ?a = coalesce (opt_prop ?d ''inscriptions'') (Val JNull)"
      "date_start ?a = coalesce (opt_prop ?d ''date_start'') (Val JNull)"
      "date_end ?a = coalesce (opt_prop ?d ''date_end'') (Val JNull)"
      by simp_all
    have "(case opt_prop ?d ''id'' of Undefined \<Rightarrow> nullish (id' ?a)
            | Val v \<Rightarrow> id' ?a = Val v) \<and>
          (case opt_prop ?d ''title'' of Undefined \<Rightarrow> nullish (title ?a)
            | Val v \<Rightarrow> title ?a = Val v) \<and>
          (case opt_prop ?d ''place_of_origin'' of Undefined \<Rightarrow> nullish (place_of_origin ?a)
            | Val v \<Rightarrow> place_of_origin ?a = Val v) \<and>
          (case opt_prop ?d ''artist_display'' of Undefined \<Rightarrow> nullish (artist_display ?a)
            | Val v \<Rightarrow> artist_display ?a = Val v) \<and>
          (case opt_prop ?d ''inscriptions'' of Undefined \<Rightarrow> nullish (inscriptions ?a)
            | Val v \<Rightarrow> inscriptions ?a = Val v) \<and>
          (case opt_prop ?d ''date_start'' of Undefined \<Rightarrow> nullish (date_start ?a)
            | Val v \<Rightarrow> date_start ?a = Val v) \<and>
          (case opt_prop ?d ''date_end'' of Undefined \<Rightarrow> nullish (date_end ?a)
            | Val v \<Rightarrow> date_end ?a = Val v)"
      unfolding sel by (simp add: coalesce_cases passed_cases)
    then show ?thesis
      by (simp add: consumed_def)
  qed
  have indep: "normalize d' = Inr (artworks ! i)"
    if "\<forall>name \<in> fst ` set consumed. get_prop d' name = get_prop (Val (ds ! i)) name" for d'
    using that n by (simp add: consumed_def normalize_def)
  from len fields indep show ?thesis by blast
qed

theorem normalized_fields_witness:
  "get_prop (Val (sample_body [1, 2])) ''data'' = Inr (Val (JArr [sample_record 1, sample_record 2])) \<and>
   artworks_of (sample_body [1, 2]) = Inr [sample_row 1, sample_row 2] \<and>
   (1::nat) < length [sample_record 1, sample_record 2] \<and>
   id' ([sample_row 1, sample_row 2] ! 1) = Val (JNum 2) \<and>
   title ([sample_row 1, sample_row 2] ! 1) = Val (JStr ''Untitled'') \<and>
   nullish (date_start ([sample_row 1, sample_row 2] ! 1)) \<and>
   normalize (Val (JObj [(''extra'', JBool True), (''title'', JStr ''Untitled''), (''id'', JNum 2)]))
     = Inr ([sample_row 1, sample_row 2] ! 1)"
proof -
  have g: "get_prop (Val (sample_body [1, 2])) ''data''
             = Inr (Val (JArr [sample_record 1, sample_record 2]))"
    by (simp add: eval_defs)
  have a: "artworks_of (sample_body [1, 2]) = Inr [sample_row 1, sample_row 2]"
    by (simp add: eval_defs fetch_defs)
  have l: "(1::nat) < length [sample_record 1, sample_record 2]"
    by simp
  from normalized_fields [OF g a l] g a l show ?thesis
    by (simp add: eval_defs fetch_defs consumed_def)
qed

text \<open>
  C5. The checked rows after a successful fetch. The rows and the total count are
  those of the response, but the checked rows are filtered with the \<^verbatim>\<open>selectedMap\<close> of
  the render that called \<^verbatim>\<open>fetchPage\<close>, not with the store as it is when the response
  is processed. In the session below the first page is loaded and all of it selected,
  the second page is visited, the first page is requested again, and the entry of
  identifier 1 is removed from the summary panel while that request is in flight: when
  the response arrives both rows are checked, although only identifier 2 is in the
  store.
\<close>

theorem stale_selection_after_fetch:
  "rows (run [Settle 0 (Inr (sample_body [1, 2])), SelectAllOnPage, PageChange 1,
              Settle 0 (Inr (sample_body [3, 4])), PageChange 0,
              RemoveFromSelection (Val (JNum 1)),
              Settle 0 (Inr (sample_body [1, 2]))] mounted) = [sample_row 1, sample_row 2] \<and>
   pageSelection (run [Settle 0 (Inr (sample_body [1, 2])), SelectAllOnPage, PageChange 1,
              Settle 0 (Inr (sample_body [3, 4])), PageChange 0,
              RemoveFromSelection (Val (JNum 1)),
              Settle 0 (Inr (sample_body [1, 2]))] mounted) = [sample_row 1, sample_row 2] \<and>
   Map_keys (selectedMap (run [Settle 0 (Inr (sample_body [1, 2])), SelectAllOnPage, PageChange 1,
              Settle 0 (Inr (sample_body [3, 4])), PageChange 0,
              RemoveFromSelection (Val (JNum 1)),
              Settle 0 (Inr (sample_body [1, 2]))] mounted)) = {Val (JNum 2)}"
  by (auto simp add: eval_defs fetch_defs Map_keys_def split: if_splits)

text \<open>
  C6. Back to a page. The checked rows of a page left and visited again are not always
  those of before. In the session below the first page is loaded and all of it
  selected, the second page is visited, the first page is requested again and the entry
  of identifier 1 is removed while that request is in flight: both rows of the first
  page are then checked, with only identifier 2 in the store. From that state the second
  page is fetched and then the first again, with the same records and no change of the
  store: only the row of identifier 2 is checked now. (From a state whose checked rows are
  the visible rows of the store the checked rows do come back: lemma
  \<open>back_to_page_from_consistent\<close>.)
\<close>

theorem checked_rows_lost_on_return:
  "rows (run [Settle 0 (Inr (sample_body [1, 2])), SelectAllOnPage, PageChange 1,
              Settle 0 (Inr (sample_body [3, 4])), PageChange 0,
              RemoveFromSelection (Val (JNum 1)),
              Settle 0 (Inr (sample_body [1, 2]))] mounted) = [sample_row 1, sample_row 2] \<and>
   pageSelection (run [Settle 0 (Inr (sample_body [1, 2])), SelectAllOnPage, PageChange 1,
              Settle 0 (Inr (sample_body [3, 4])), PageChange 0,
              RemoveFromSelection (Val (JNum 1)),
              Settle 0 (Inr (sample_body [1, 2]))] mounted) = [sample_row 1, sample_row 2] \<and>
   selectedMap (run [PageChange 1, Settle 0 (Inr (sample_body [3, 4])),
                     PageChange 0, Settle 0 (Inr (sample_body [1, 2]))]
      (run [Settle 0 (Inr (sample_body [1, 2])), SelectAllOnPage, PageChange 1,
              Settle 0 (Inr (sample_body [3, 4])), PageChange 0,
              RemoveFromSelection (Val (JNum 1)),
              Settle 0 (Inr (sample_body [1, 2]))] mounted))
     = selectedMap (run [Settle 0 (Inr (sample_body [1, 2])), SelectAllOnPage, PageChange 1,
              Settle 0 (Inr (sample_body [3, 4])), PageChange 0,
              RemoveFromSelection (Val (JNum 1)),
              Settle 0 (Inr (sample_body [1, 2]))] mounted) \<and>
   rows (run [PageChange 1, Settle 0 (Inr (sample_body [3, 4])),
              PageChange 0, Settle 0 (Inr (sample_body [1, 2]))]
      (run [Settle 0 (Inr (sample_body [1, 2])), SelectAllOnPage, PageChange 1,
              Settle 0 (Inr (sample_body [3, 4])), PageChange 0,
              RemoveFromSelection (Val (JNum 1)),
              Settle 0 (Inr (sample_body [1, 2]))] mounted)) = [sample_row 1, sample_row 2] \<and>
   pageSelection (run [PageChange 1, Settle 0 (Inr (sample_body [3, 4])),
              PageChange 0, Settle 0 (Inr (sample_body [1, 2]))]
      (run [Settle 0 (Inr (sample_body [1, 2])), SelectAllOnPage, PageChange 1,
              Settle 0 (Inr (sample_body [3, 4])), PageChange 0,
              RemoveFromSelection (Val (JNum 1)),
              Settle 0 (Inr (sample_body [1, 2]))] mounted)) = [sample_row 2]"
  by (simp add: eval_defs fetch_defs)

text \<open>
  C7. Frame of the store operations. \<^verbatim>\<open>selectAllOnPage\<close> and \<^verbatim>\<open>clearSelectionOnPage\<close>
  leave the entry of every identifier that is not the identifier of a visible row as it
  was; \<^verbatim>\<open>removeFromSelection\<close> of an identifier leaves the entry of every other
  identifier as it was; reading all ranges over the whole store: every entry of the
  store is among the values it returns.
\<close>

theorem store_frame:
  "(\<forall>k. k \<notin> id' ` set (rows st) \<longrightarrow>
      Map_get (selectedMap (selectAllOnPage st)) k = Map_get (selectedMap st) k) \<and>
   (\<forall>k. k \<notin> id' ` set (rows st) \<longrightarrow>
      Map_get (selectedMap (clearSelectionOnPage st)) k = Map_get (selectedMap st) k) \<and>
   (\<forall>k. k \<noteq> k0 \<longrightarrow>
      Map_get (selectedMap (removeFromSelection k0 st)) k = Map_get (selectedMap st) k) \<and>
   (\<forall>k e. Map_get (selectedMap st) k = Some e \<longrightarrow> e \<in> set (read_all st))"
  by (simp add: get_selectAllOnPage_out get_clearSelectionOnPage get_removeFromSelection
      read_all_def Map_get_in_values)

theorem store_frame_witness:
  "Val (JNum 7) \<notin> id' ` set (rows (sample_state [1, 2] [1, 7])) \<and>
   Map_get (selectedMap (selectAllOnPage (sample_state [1, 2] [1, 7]))) (Val (JNum 7))
     = Some (pick (sample_row 7)) \<and>
   Map_get (selectedMap (clearSelectionOnPage (sample_state [1, 2] [1, 7]))) (Val (JNum 7))
     = Some (pick (sample_row 7)) \<and>
   Val (JNum 7) \<noteq> Val (JNum 1) \<and>
   Map_get (selectedMap (removeFromSelection (Val (JNum 1)) (sample_state [1, 2] [1, 7])))
     (Val (JNum 7)) = Some (pick (sample_row 7)) \<and>
   pick (sample_row 7) \<in> set (read_all (sample_state [1, 2] [1, 7]))"
  using store_frame [of "sample_state [1, 2] [1, 7]" "Val (JNum 1)"]
  by (simp add: eval_defs)

text \<open>
  C8. A failed fetch. When the awaited request or the parsing of its body rejects, the
  call of \<^verbatim>\<open>fetchPage\<close> that resumes changes the state in two places only: the loading
  flag is cleared and the error is written with \<^verbatim>\<open>console.error\<close>. For a fetch started
  in a state \<open>st\<close> this leaves the visible rows, the total count, the store and the
  checked rows of \<open>st\<close>, and the only request made is the one of the fetch itself: there
  is no retry, and the state has no cell for an error to show.
\<close>

theorem failed_fetch:
  "fetchPage_resume captured (Inl err) st =
     st\<lparr>loading := False,
        console_error := console_error st @ [(''fetch error'', err)]\<rparr> \<and>
   rows (fetchPage page (Inl err) st) = rows st \<and>
   totalRecords (fetchPage page (Inl err) st) = totalRecords st \<and>
   selectedMap (fetchPage page (Inl err) st) = selectedMap st \<and>
   pageSelection (fetchPage page (Inl err) st) = pageSelection st \<and>
   loading (fetchPage page (Inl err) st) = False \<and>
   console_error (fetchPage page (Inl err) st) = console_error st @ [(''fetch error'', err)] \<and>
   requests (fetchPage page (Inl err) st) = requests st @ [(page, pageSize)]"
  by (simp add: fetchPage_def fetchPage_resume_def fetchPage_start_def try_block_def)

theorem failed_fetch_witness:
  "rows (fetchPage 3 (Inl NetworkError) (sample_state [1, 2] [1])) = [sample_row 1, sample_row 2] \<and>
   totalRecords (fetchPage 3 (Inl NetworkError) (sample_state [1, 2] [1])) = Val (JNum 0) \<and>
   pageSelection (fetchPage 3 (Inl NetworkError) (sample_state [1, 2] [1])) = [sample_row 1] \<and>
   loading (fetchPage 3 (Inl NetworkError) (sample_state [1, 2] [1])) = False \<and>
   console_error (fetchPage 3 (Inl NetworkError) (sample_state [1, 2] [1]))
     = [(''fetch error'', NetworkError)] \<and>
   requests (fetchPage 3 (Inl NetworkError) (sample_state [1, 2] [1])) = [(3, 10)]"
  using failed_fetch [where err = NetworkError and page = 3 and st = "sample_state [1, 2] [1]"]
  by (simp add: eval_defs pageSize_def)

text \<open>
  C9. A failed navigation. \<^verbatim>\<open>onPageChange\<close> for the page \<open>e_page + 1\<close> sets the current
  page number first and starts the fetch in the state so changed; when that fetch fails
  the page number stays, while the visible rows and the total count are still those of
  the state before the navigation.
\<close>

theorem failed_navigation:
  "onPageChange e_page st = fetchPage_start (e_page + 1) (st\<lparr>currentPage := e_page + 1\<rparr>) \<and>
   currentPage (onPageChange e_page st) = e_page + 1 \<and>
   requests (onPageChange e_page st) = requests st @ [(e_page + 1, pageSize)] \<and>
   currentPage (fetchPage_resume captured (Inl err) (onPageChange e_page st)) = e_page + 1 \<and>
   rows (fetchPage_resume captured (Inl err) (onPageChange e_page st)) = rows st \<and>
   totalRecords (fetchPage_resume captured (Inl err) (onPageChange e_page st)) = totalRecords st"
  by (simp add: onPageChange_def fetchPage_resume_def fetchPage_start_def try_block_def Let_def)

theorem failed_navigation_witness:
  "currentPage (sample_state [1, 2] [1]) = 1 \<and>
   currentPage (fetchPage_resume [] (Inl SyntaxError) (onPageChange 2 (sample_state [1, 2] [1]))) = 3 \<and>
   rows (fetchPage_resume [] (Inl SyntaxError) (onPageChange 2 (sample_state [1, 2] [1])))
     = [sample_row 1, sample_row 2] \<and>
   totalRecords (fetchPage_resume [] (Inl SyntaxError) (onPageChange 2 (sample_state [1, 2] [1])))
     = Val (JNum 0)"
  using failed_navigation [of 2 "sample_state [1, 2] [1]" "[]" SyntaxError]
  by (simp add: eval_defs fetch_defs)

text \<open>
  C10. A body without data. The claim that every parsed body without a \<^verbatim>\<open>data\<close> field
  empties the visible rows fails for the body \<^verbatim>\<open>null\<close>: it parses and has no field, but
  reading \<^verbatim>\<open>json.data\<close> throws, the error is caught and logged, and the rows, the checked
  rows and the total count stay.
\<close>

theorem body_without_data_counterexample:
  "get_prop (Val JNull) ''data'' = Inl TypeError \<and>
   rows (fetchPage_resume [] (Inr JNull) (sample_state [1, 2] [1]))
     = [sample_row 1, sample_row 2] \<and>
   pageSelection (fetchPage_resume [] (Inr JNull) (sample_state [1, 2] [1])) = [sample_row 1] \<and>
   totalRecords (fetchPage_resume [] (Inr JNull)
      ((sample_state [1, 2] [1])\<lparr>totalRecords := Val (JNum 120)\<rparr>)) = Val (JNum 120) \<and>
   console_error (fetchPage_resume [] (Inr JNull) (sample_state [1, 2] [1]))
     = [(''fetch error'', TypeError)]"
  by (simp add: eval_defs fetch_defs)

text \<open>
  C10, as the code has it. For a parsed body other than \<^verbatim>\<open>null\<close> whose \<^verbatim>\<open>data\<close> reads as
  undefined or null, the visible rows become the empty list and so do the checked rows;
  when \<^verbatim>\<open>pagination?.total\<close> reads as undefined or null as well, the total count
  becomes 0.
\<close>

theorem body_without_data:
  assumes "body \<noteq> JNull" and "nullish (opt_prop (Val body) ''data'')"
  shows "rows (fetchPage_resume captured (Inr body) st) = [] \<and>
         pageSelection (fetchPage_resume captured (Inr body) st) = [] \<and>
         (nullish (opt_prop (opt_prop (Val body) ''pagination'') ''total'') \<longrightarrow>
            totalRecords (fetchPage_resume captured (Inr body) st) = Val (JNum 0))"
proof -
  from assms(1) have "get_prop (Val body) ''data'' = Inr (opt_prop (Val body) ''data'')"
    by (rule get_prop_not_null)
  from fetchPage_resume_ok [OF artworks_of_no_data [OF this assms(2)]] show ?thesis
    by (simp add: coalesce_def)
qed

theorem body_without_data_witness:
  "JObj [(''status'', JNum 404)] \<noteq> JNull \<and>
   nullish (opt_prop (Val (JObj [(''status'', JNum 404)])) ''data'') \<and>
   nullish (opt_prop (opt_prop (Val (JObj [(''status'', JNum 404)])) ''pagination'') ''total'') \<and>
   rows (fetchPage_resume [] (Inr (JObj [(''status'', JNum 404)])) (sample_state [1, 2] [1])) = [] \<and>
   pageSelection (fetchPage_resume [] (Inr (JObj [(''status'', JNum 404)])) (sample_state [1, 2] [1])) = [] \<and>
   totalRecords (fetchPage_resume [] (Inr (JObj [(''status'', JNum 404)])) (sample_state [1, 2] [1]))
     = Val (JNum 0)"
proof -
  have b: "JObj [(''status'', JNum 404)] \<noteq> JNull"
    by simp
  have n: "nullish (opt_prop (Val (JObj [(''status'', JNum 404)])) ''data'')"
    by (simp add: opt_prop_def)
  have t: "nullish (opt_prop (opt_prop (Val (JObj [(''status'', JNum 404)])) ''pagination'') ''total'')"
    by (simp add: opt_prop_def)
  from body_without_data [OF b n, of "[]" "sample_state [1, 2] [1]"] b n t
  show ?thesis by simp
qed

end
